theory Spec2Isabelle
  imports Complex_Main "HOL-Library.AList"
begin

section \<open>Python values\<close>

text \<open>
  The device store of \<^verbatim>\<open>device_storage.py\<close> works on the values that
  \<^verbatim>\<open>json.loads\<close> returns: \<^verbatim>\<open>None\<close>, booleans, integers, floats, strings, lists and
  dictionaries with string keys. Strings are lists of characters and are read as ASCII
  text. A float is kept by its exact value (or as one of the three special values); the
  sign of a zero is not kept, since \<^verbatim>\<open>-0.0 == 0.0\<close> and both are false.
\<close>

datatype py_error = JSONDecodeError | KeyError | TypeError | AttributeError
  | ValueError | RecursionError

datatype pyfloat = Finite rat | PosInf | NegInf | NaN

datatype json = JNull | JBool bool | JInt int | JFloat pyfloat | JStr string
  | JList "json list" | JDict "(string \<times> json) list"

text \<open>Truth value of an object, as \<^verbatim>\<open>if x\<close> and \<^verbatim>\<open>not x\<close> test it.\<close>

fun truthy :: "json \<Rightarrow> bool" where
  "truthy JNull = False"
| "truthy (JBool b) = b"
| "truthy (JInt i) = (i \<noteq> 0)"
| "truthy (JFloat f) = (f \<noteq> Finite 0)"
| "truthy (JStr s) = (s \<noteq> [])"
| "truthy (JList xs) = (xs \<noteq> [])"
| "truthy (JDict d) = (d \<noteq> [])"

text \<open>\<^verbatim>\<open>item.get(k)\<close> on a decoded JSON object: the value, or \<^verbatim>\<open>None\<close> when the key is missing.\<close>

definition item_get :: "(string \<times> json) list \<Rightarrow> string \<Rightarrow> json" where
  "item_get d k = (case map_of d k of None \<Rightarrow> JNull | Some v \<Rightarrow> v)"

subsection \<open>Dictionaries keyed by arbitrary hashable values\<close>

text \<open>
  A dictionary finds a key by hash and equality. Numbers are equal across \<^verbatim>\<open>bool\<close>,
  \<^verbatim>\<open>int\<close> and \<^verbatim>\<open>float\<close> (\<^verbatim>\<open>True == 1 == 1.0\<close>), so the key is compared through
  \<open>canon\<close>; lists and dictionaries are unhashable (\<open>None\<close>). The dictionary itself is
  an association list in insertion order that keeps the key object first inserted.
\<close>

datatype pykey = KNone | KNum rat | KSpecial pyfloat | KStr string

fun canon :: "json \<Rightarrow> pykey option" where
  "canon JNull = Some KNone"
| "canon (JBool b) = Some (KNum (if b then 1 else 0))"
| "canon (JInt i) = Some (KNum (of_int i))"
| "canon (JFloat (Finite q)) = Some (KNum q)"
| "canon (JFloat f) = Some (KSpecial f)"
| "canon (JStr s) = Some (KStr s)"
| "canon (JList xs) = None"
| "canon (JDict d) = None"

type_synonym pydict = "(json \<times> json) list"

text \<open>\<^verbatim>\<open>d.get(k)\<close> and \<^verbatim>\<open>k in d\<close> (the latter is \<open>dict_get d k \<noteq> None\<close>).\<close>

fun dict_get :: "pydict \<Rightarrow> json \<Rightarrow> json option" where
  "dict_get [] k = None"
| "dict_get ((k', v) # d) k = (if canon k' = canon k then Some v else dict_get d k)"

text \<open>\<^verbatim>\<open>d[k] = v\<close> for a hashable \<open>k\<close>: an existing entry keeps its place and its key.\<close>

fun dict_set :: "json \<Rightarrow> json \<Rightarrow> pydict \<Rightarrow> pydict" where
  "dict_set k v [] = [(k, v)]"
| "dict_set k v ((k', v') # d) =
     (if canon k' = canon k then (k', v) # d else (k', v') # dict_set k v d)"

text \<open>\<^verbatim>\<open>d[k] = v\<close> in full: an unhashable key raises \<^verbatim>\<open>TypeError\<close>.\<close>

definition setitem :: "pydict \<Rightarrow> json \<Rightarrow> json \<Rightarrow> py_error + pydict" where
  "setitem d k v = (case canon k of None \<Rightarrow> Inl TypeError | Some c \<Rightarrow> Inr (dict_set k v d))"

text \<open>\<^verbatim>\<open>d.update(other)\<close>: every item of \<open>other\<close> is assigned in turn.\<close>

definition dict_update :: "pydict \<Rightarrow> pydict \<Rightarrow> pydict" where
  "dict_update d other = fold (\<lambda>(k, v). dict_set k v) other d"

subsection \<open>Strings\<close>

text \<open>\<^verbatim>\<open>str.upper\<close> on ASCII text: the letters a to z move to A to Z.\<close>

definition upper_char :: "char \<Rightarrow> char" where
  "upper_char c =
     (case map_of (zip ''abcdefghijklmnopqrstuvwxyz'' ''ABCDEFGHIJKLMNOPQRSTUVWXYZ'') c of
        None \<Rightarrow> c | Some u \<Rightarrow> u)"

definition upper :: "string \<Rightarrow> string" where
  "upper s = map upper_char s"

text \<open>\<^verbatim>\<open>s.split(sep)\<close> for a separator of one character.\<close>

fun split_on :: "char \<Rightarrow> string \<Rightarrow> string list" where
  "split_on sep [] = [[]]"
| "split_on sep (c # cs) =
     (if c = sep then [] # split_on sep cs
      else (case split_on sep cs of [] \<Rightarrow> [[c]] | w # ws \<Rightarrow> (c # w) # ws))"

text \<open>\<^verbatim>\<open>s.strip()\<close>: ASCII white space is removed at both ends.\<close>

definition is_space :: "char \<Rightarrow> bool" where
  "is_space c = (let n = (of_char c :: nat) in (9 \<le> n \<and> n \<le> 13) \<or> (28 \<le> n \<and> n \<le> 32))"

definition strip :: "string \<Rightarrow> string" where
  "strip s = rev (dropWhile is_space (rev (dropWhile is_space s)))"

text \<open>\<^verbatim>\<open>int(x)\<close> on a number: truncation towards zero.\<close>

definition py_int :: "rat \<Rightarrow> int" where
  "py_int x = (if 0 \<le> x then \<lfloor>x\<rfloor> else \<lceil>x\<rceil>)"

section \<open>The device store\<close>

text \<open>
  A device record is the dictionary built in \<^verbatim>\<open>update_device\<close> (keys \<^verbatim>\<open>mac\<close>,
  \<^verbatim>\<open>first_seen\<close>, \<^verbatim>\<open>last_seen\<close>, \<^verbatim>\<open>capabilities\<close>, \<^verbatim>\<open>attributes\<close>). The store is the
  in-memory dictionary \<^verbatim>\<open>self._devices\<close>, in insertion order, together with the content
  of \<^verbatim>\<open>devices.json\<close> (\<open>None\<close> while the file does not exist).
\<close>

record device =
  mac :: string
  first_seen :: int
  last_seen :: int
  capabilities :: "string list"
  attributes :: pydict

type_synonym device_map = "(string \<times> device) list"

record store =
  devices :: device_map
  disk :: "device_map option"

text \<open>
  The dictionary returned by \<^verbatim>\<open>parse_status_message\<close> and taken by \<^verbatim>\<open>update_device\<close>
  as \<^verbatim>\<open>status_data\<close>; \<^verbatim>\<open>update_device\<close> tests whether the key \<^verbatim>\<open>attributes\<close> is there.
\<close>

record status_data =
  status_mac :: json
  status_attributes :: "pydict option"
  status_timestamp :: int

text \<open>A call either returns or raises; what it did to the store before raising stays.\<close>

datatype 'a outcome = Returned 'a | Raised py_error

definition MAX_DEVICES :: nat where
  "MAX_DEVICES = 200"

definition MAX_DEVICE_SIZE_BYTES :: nat where
  "MAX_DEVICE_SIZE_BYTES = 1024 * 1024"

definition MAX_TOTAL_SIZE_BYTES :: nat where
  "MAX_TOTAL_SIZE_BYTES = 10 * 1024 * 1024"

definition empty_store :: store where
  "empty_store = \<lparr>devices = [], disk = None\<rparr>"

subsection \<open>Persistence\<close>

text \<open>
  \<^verbatim>\<open>_save_devices\<close> writes the whole dictionary to a temporary file and renames it over
  \<^verbatim>\<open>devices.json\<close>, inside \<^verbatim>\<open>try ... except Exception\<close>. \<open>write_ok\<close> says whether
  both steps went through; when one fails the error is logged and \<^verbatim>\<open>devices.json\<close>
  is as before.
\<close>

definition save_devices :: "bool \<Rightarrow> store \<Rightarrow> store" where
  "save_devices write_ok s = (if write_ok then s\<lparr>disk := Some (devices s)\<rparr> else s)"

subsection \<open>The status parser\<close>

text \<open>
  The loop of \<^verbatim>\<open>parse_status_message\<close> (lines 86 to 99), with the running values of
  \<^verbatim>\<open>mac\<close> and \<^verbatim>\<open>parsed_data\<close>.
\<close>

fun parse_items :: "json list \<Rightarrow> json \<Rightarrow> pydict \<Rightarrow> py_error + (json \<times> pydict)" where
  "parse_items [] mac_v parsed_data = Inr (mac_v, parsed_data)"
| "parse_items (JDict item # rest) mac_v parsed_data =
     (let mac_v' = (if mac_v = JNull then item_get item ''dn'' else mac_v);
          type_key = item_get item ''type'';
          val = item_get item ''value''
      in if truthy type_key \<and> val \<noteq> JNull
         then (case setitem parsed_data type_key val of
                 Inl e \<Rightarrow> Inl e
               | Inr parsed_data' \<Rightarrow> parse_items rest mac_v' parsed_data')
         else parse_items rest mac_v' parsed_data)"
| "parse_items (other # rest) mac_v parsed_data = parse_items rest mac_v parsed_data"

text \<open>
  The body of the \<^verbatim>\<open>try\<close> block. \<open>loads\<close> is \<^verbatim>\<open>json.loads\<close>, \<open>clock\<close> the value of
  \<^verbatim>\<open>time.time()\<close>.
\<close>

definition parse_body ::
  "(string \<Rightarrow> py_error + json) \<Rightarrow> rat \<Rightarrow> string \<Rightarrow> py_error + status_data option" where
  "parse_body loads clock payload =
     (case loads payload of
        Inl e \<Rightarrow> Inl e
      | Inr (JList status_list) \<Rightarrow>
          if status_list = [] then Inr None
          else (case parse_items status_list JNull [] of
                  Inl e \<Rightarrow> Inl e
                | Inr (mac_v, parsed_data) \<Rightarrow>
                    Inr (Some \<lparr>status_mac = mac_v, status_attributes = Some parsed_data,
                               status_timestamp = py_int (clock * 1000)\<rparr>))
      | Inr other \<Rightarrow> Inr None)"

text \<open>The \<^verbatim>\<open>except (json.JSONDecodeError, KeyError, TypeError)\<close> clause around it.\<close>

definition parse_status_message ::
  "(string \<Rightarrow> py_error + json) \<Rightarrow> rat \<Rightarrow> string \<Rightarrow> py_error + status_data option" where
  "parse_status_message loads clock payload =
     (case parse_body loads clock payload of
        Inl e \<Rightarrow> (if e = JSONDecodeError \<or> e = KeyError \<or> e = TypeError then Inr None else Inl e)
      | Inr r \<Rightarrow> Inr r)"

subsection \<open>Updating a device\<close>

text \<open>
  \<^verbatim>\<open>self._devices.get(mac, {...})\<close> returns the stored dictionary itself when the key is
  there, so an item assignment on \<^verbatim>\<open>device\<close> is at once an assignment on the stored
  record; for a new key \<^verbatim>\<open>device\<close> is a fresh dictionary that the store does not hold
  before line 158.
\<close>

definition write_through :: "bool \<Rightarrow> string \<Rightarrow> device \<Rightarrow> store \<Rightarrow> store" where
  "write_through is_new_device k d s =
     (if is_new_device then s else s\<lparr>devices := AList.update k d (devices s)\<rparr>)"

text \<open>
  Lines 152 to 162: capabilities, storing, saving. \<^verbatim>\<open>caps_str.split\<close> exists on strings
  only; any other value raises \<^verbatim>\<open>AttributeError\<close>, which \<^verbatim>\<open>update_device\<close> does not catch.
\<close>

definition finish_update ::
  "bool \<Rightarrow> bool \<Rightarrow> string \<Rightarrow> device \<Rightarrow> store \<Rightarrow> bool outcome \<times> store" where
  "finish_update write_ok is_new_device k d s =
     (case dict_get (attributes d) (JStr ''supportAttributes'') of
        None \<Rightarrow>
          (Returned True, save_devices write_ok (s\<lparr>devices := AList.update k d (devices s)\<rparr>))
      | Some (JStr caps_str) \<Rightarrow>
          (let d' = d\<lparr>capabilities := map strip (split_on CHR '','' caps_str)\<rparr>
           in (Returned True, save_devices write_ok (s\<lparr>devices := AList.update k d' (devices s)\<rparr>)))
      | Some other \<Rightarrow> (Raised AttributeError, write_through is_new_device k d s))"

text \<open>
  \<^verbatim>\<open>update_device\<close>. \<open>dumps_len\<close> is the number of bytes of
  \<^verbatim>\<open>json.dumps(updated_attributes).encode('utf-8')\<close>, \<open>clock\<close> the value of \<^verbatim>\<open>time.time()\<close>
  (taken as an exact number of seconds), \<open>write_ok\<close> the outcome of the write in
  \<^verbatim>\<open>_save_devices\<close>.
\<close>

definition update_device ::
  "(pydict \<Rightarrow> nat) \<Rightarrow> rat \<Rightarrow> bool \<Rightarrow> string \<Rightarrow> status_data \<Rightarrow> store \<Rightarrow> bool outcome \<times> store" where
  "update_device dumps_len clock write_ok mac0 status s =
     (if mac0 = [] then (Returned False, s)
      else
        let k = upper mac0;
            current_time = py_int (clock * 1000);
            is_new_device = (map_of (devices s) k = None)
        in if is_new_device \<and> MAX_DEVICES \<le> length (devices s) then (Returned False, s)
           else
             let device0 = (case map_of (devices s) k of
                              Some d \<Rightarrow> d
                            | None \<Rightarrow> \<lparr>mac = k, first_seen = current_time, last_seen = current_time,
                                        capabilities = [], attributes = []\<rparr>);
                 device1 = device0\<lparr>last_seen := current_time\<rparr>
             in (case status_attributes status of
                   None \<Rightarrow> finish_update write_ok is_new_device k device1 s
                 | Some new_attributes \<Rightarrow>
                     let updated_attributes = dict_update (attributes device1) new_attributes
                     in if MAX_DEVICE_SIZE_BYTES < dumps_len updated_attributes
                        then (Returned False, write_through is_new_device k device1 s)
                        else finish_update write_ok is_new_device k
                               (device1\<lparr>attributes := updated_attributes\<rparr>) s))"

subsection \<open>The ingestion listener\<close>

text \<open>The \<^verbatim>\<open>except Exception\<close> clause of \<^verbatim>\<open>process_mqtt_message\<close>: an error is logged and the answer is \<^verbatim>\<open>False\<close>.\<close>

fun catch_all :: "bool outcome \<times> store \<Rightarrow> bool \<times> store" where
  "catch_all (Returned b, s) = (b, s)"
| "catch_all (Raised e, s) = (False, s)"

text \<open>
  \<^verbatim>\<open>process_mqtt_message\<close>. The parsed result is a dictionary of three keys, so
  \<^verbatim>\<open>not parsed\<close> holds for \<^verbatim>\<open>None\<close> only; a parsed result without the key \<^verbatim>\<open>attributes\<close>
  would raise \<^verbatim>\<open>KeyError\<close> on line 198, which the \<^verbatim>\<open>except\<close> clause turns into \<^verbatim>\<open>False\<close>, as
  it does with an exception that \<^verbatim>\<open>parse_status_message\<close> lets through.
\<close>

definition process_mqtt_message ::
  "(string \<Rightarrow> py_error + json) \<Rightarrow> (pydict \<Rightarrow> nat) \<Rightarrow> rat \<Rightarrow> rat \<Rightarrow> bool \<Rightarrow>
   string \<Rightarrow> string \<Rightarrow> store \<Rightarrow> bool \<times> store" where
  "process_mqtt_message loads dumps_len clock_parse clock_update write_ok topic payload s =
     (let topic_parts = split_on CHR ''/'' topic
      in if length topic_parts < 3 \<or> topic_parts ! 0 \<noteq> ''wifielement'' then (False, s)
         else
           let mac_part = topic_parts ! 1;
               message_type = topic_parts ! 2
           in if message_type \<noteq> ''status'' then (False, s)
              else (case parse_status_message loads clock_parse payload of
                      Inl e \<Rightarrow> (False, s)
                    | Inr None \<Rightarrow> (False, s)
                    | Inr (Some parsed) \<Rightarrow>
                        (case status_attributes parsed of
                           None \<Rightarrow> (False, s)
                         | Some attrs \<Rightarrow>
                             if length attrs < 5 then (False, s)
                             else catch_all
                                    (update_device dumps_len clock_update write_ok mac_part parsed s))))"

subsection \<open>Reading and sweeping\<close>

definition get_device :: "string \<Rightarrow> store \<Rightarrow> device option" where
  "get_device mac0 s = map_of (devices s) (upper mac0)"

definition get_all_devices :: "store \<Rightarrow> device_map" where
  "get_all_devices s = devices s"

definition get_device_count :: "store \<Rightarrow> nat" where
  "get_device_count s = length (devices s)"

text \<open>
  \<^verbatim>\<open>cleanup_old_devices\<close>: the cut-off is computed on exact numbers here (the source
  computes it on floats); every key it deletes was read from the dictionary itself.
\<close>

definition cleanup_old_devices :: "rat \<Rightarrow> int \<Rightarrow> bool \<Rightarrow> store \<Rightarrow> nat \<times> store" where
  "cleanup_old_devices clock max_age_days write_ok s =
     (let cutoff_time = py_int ((clock - of_int (max_age_days * 24 * 3600)) * 1000);
          old_devices = map fst (filter (\<lambda>(k, d). last_seen d < cutoff_time) (devices s));
          s' = s\<lparr>devices := fold AList.delete old_devices (devices s)\<rparr>
      in (length old_devices, if old_devices \<noteq> [] then save_devices write_ok s' else s'))"

text \<open>
  \<^verbatim>\<open>get_storage_stats\<close>, without its file name and its two floating-point percentages;
  \<open>file_size\<close> is what \<^verbatim>\<open>stat\<close> reports, 0 when there is no file or \<^verbatim>\<open>stat\<close> fails.
\<close>

record storage_stats =
  total_devices :: nat
  max_devices :: nat
  file_size_bytes :: nat
  max_file_size_bytes :: nat
  last_updated :: int
  max_device_size_bytes :: nat

definition get_storage_stats :: "nat \<Rightarrow> store \<Rightarrow> storage_stats" where
  "get_storage_stats file_size s =
     \<lparr>total_devices = length (devices s), max_devices = MAX_DEVICES,
      file_size_bytes = file_size, max_file_size_bytes = MAX_TOTAL_SIZE_BYTES,
      last_updated = (case map (\<lambda>(k, d). last_seen d) (devices s) of
                        [] \<Rightarrow> 0 | x # xs \<Rightarrow> fold max xs x),
      max_device_size_bytes = MAX_DEVICE_SIZE_BYTES\<rparr>"

subsection \<open>Sequences of calls\<close>

datatype call =
    Update rat bool string status_data
  | Cleanup rat int bool
  | GetDevice string
  | GetAll
  | GetStats nat

text \<open>The store after one call; the three readers return a value and assign nothing.\<close>

fun step :: "(pydict \<Rightarrow> nat) \<Rightarrow> call \<Rightarrow> store \<Rightarrow> store" where
  "step dumps_len (Update clock write_ok mac0 status) s =
     snd (update_device dumps_len clock write_ok mac0 status s)"
| "step dumps_len (Cleanup clock max_age_days write_ok) s =
     snd (cleanup_old_devices clock max_age_days write_ok s)"
| "step dumps_len (GetDevice mac0) s = s"
| "step dumps_len GetAll s = s"
| "step dumps_len (GetStats file_size) s = s"

fun run :: "(pydict \<Rightarrow> nat) \<Rightarrow> call list \<Rightarrow> store \<Rightarrow> store" where
  "run dumps_len [] s = s"
| "run dumps_len (c # cs) s = run dumps_len cs (step dumps_len c s)"

fun run_updates ::
  "(pydict \<Rightarrow> nat) \<Rightarrow> (rat \<times> bool \<times> string \<times> status_data) list \<Rightarrow> store \<Rightarrow> store" where
  "run_updates dumps_len [] s = s"
| "run_updates dumps_len ((clock, write_ok, mac0, status) # cs) s =
     run_updates dumps_len cs (snd (update_device dumps_len clock write_ok mac0 status s))"

section \<open>Notions used in the statements\<close>

text \<open>The exception classes that \<^verbatim>\<open>parse_status_message\<close> catches (line 107).\<close>

definition caught :: "py_error \<Rightarrow> bool" where
  "caught e = (e = JSONDecodeError \<or> e = KeyError \<or> e = TypeError)"

text \<open>
  The merged mapping of an update: the stored attributes of the key (none for a new key)
  with the incoming attributes assigned over them.
\<close>

definition merged_attributes :: "string \<Rightarrow> status_data \<Rightarrow> store \<Rightarrow> pydict" where
  "merged_attributes k status s =
     (let old = (case map_of (devices s) k of Some d \<Rightarrow> attributes d | None \<Rightarrow> [])
      in case status_attributes status of
           None \<Rightarrow> old
         | Some new_attributes \<Rightarrow> dict_update old new_attributes)"

text \<open>The identifier check (line 113), the capacity check (line 122) and the size check (line 146).\<close>

definition passes_checks :: "(pydict \<Rightarrow> nat) \<Rightarrow> string \<Rightarrow> status_data \<Rightarrow> store \<Rightarrow> bool" where
  "passes_checks dumps_len mac0 status s =
     (mac0 \<noteq> [] \<and>
      (map_of (devices s) (upper mac0) \<noteq> None \<or> length (devices s) < MAX_DEVICES) \<and>
      (status_attributes status = None \<or>
       dumps_len (merged_attributes (upper mac0) status s) \<le> MAX_DEVICE_SIZE_BYTES))"

text \<open>
  Lines 153 to 155 go through, so that line 158 and the persistence step are reached:
  \<^verbatim>\<open>supportAttributes\<close> is missing from the mapping or its value is a string.
\<close>

definition caps_source_ok :: "pydict \<Rightarrow> bool" where
  "caps_source_ok attrs =
     (case dict_get attrs (JStr ''supportAttributes'') of
        None \<Rightarrow> True | Some (JStr caps_str) \<Rightarrow> True | Some other \<Rightarrow> False)"

text \<open>The record that an accepted update stores under the key.\<close>

definition accepted_record :: "rat \<Rightarrow> string \<Rightarrow> status_data \<Rightarrow> store \<Rightarrow> device" where
  "accepted_record clock k status s =
     (let t = py_int (clock * 1000);
          d0 = (case map_of (devices s) k of
                  Some d \<Rightarrow> d
                | None \<Rightarrow> \<lparr>mac = k, first_seen = t, last_seen = t, capabilities = [],
                            attributes = []\<rparr>);
          m = merged_attributes k status s
      in d0\<lparr>last_seen := t, attributes := m,
            capabilities := (case dict_get m (JStr ''supportAttributes'') of
                               Some (JStr caps_str) \<Rightarrow> map strip (split_on CHR '','' caps_str)
                             | _ \<Rightarrow> capabilities d0)\<rparr>)"

text \<open>Two device dictionaries that agree in everything but the \<^verbatim>\<open>last_seen\<close> of the record under \<open>k\<close>.\<close>

definition same_but_last_seen :: "string \<Rightarrow> device_map \<Rightarrow> device_map \<Rightarrow> bool" where
  "same_but_last_seen k ds ds' =
     list_all2 (\<lambda>(k1, d1) (k2, d2).
        k2 = k1 \<and> (if k1 = k then d2 = d1\<lparr>last_seen := last_seen d2\<rparr> else d2 = d1)) ds ds'"

text \<open>Every record carries the key it is stored under, and the key is its own upper-case form.\<close>

definition keys_canonical :: "store \<Rightarrow> bool" where
  "keys_canonical s = list_all (\<lambda>(k, d). mac d = k \<and> upper k = k) (devices s)"

text \<open>
  What a record of the payload contributes, in the words of the specification: a key-value
  object with a non-empty \<^verbatim>\<open>type\<close> and a \<^verbatim>\<open>value\<close> that is present contributes the pair
  of the two; anything else contributes nothing.
\<close>

fun contribution :: "json \<Rightarrow> (json \<times> json) option" where
  "contribution (JDict item) =
     (if truthy (item_get item ''type'') \<and> item_get item ''value'' \<noteq> JNull
      then Some (item_get item ''type'', item_get item ''value'') else None)"
| "contribution other = None"

definition contributions :: "json list \<Rightarrow> pydict" where
  "contributions items = List.map_filter contribution items"

text \<open>The value of the last pair whose key equals \<open>k\<close>.\<close>

definition last_value :: "pydict \<Rightarrow> json \<Rightarrow> json option" where
  "last_value pairs k = dict_get (rev pairs) k"

text \<open>The topic filter of \<^verbatim>\<open>process_mqtt_message\<close> (lines 177 to 188).\<close>

definition status_topic :: "string \<Rightarrow> bool" where
  "status_topic topic =
     (let topic_parts = split_on CHR ''/'' topic
      in 3 \<le> length topic_parts \<and> topic_parts ! 0 = ''wifielement'' \<and> topic_parts ! 2 = ''status'')"

section \<open>Sample inputs\<close>

text \<open>
  The length of \<^verbatim>\<open>json.dumps\<close> on a dictionary whose keys and values are strings of
  printable ASCII characters other than the quote and the backslash: two braces, every
  string in quotes, \<^verbatim>\<open>": "\<close> inside an item and \<^verbatim>\<open>", "\<close> between items.
\<close>

definition plain_text_len :: "json \<Rightarrow> nat" where
  "plain_text_len x = (case x of JStr t \<Rightarrow> length t + 2 | _ \<Rightarrow> 4)"

definition plain_dumps_len :: "pydict \<Rightarrow> nat" where
  "plain_dumps_len d =
     (if d = [] then 2
      else sum_list (map (\<lambda>(k, v). plain_text_len k + plain_text_len v + 4) d))"

text \<open>The status snapshot of the end-to-end scenario, as text and as decoded.\<close>

definition sample_payload :: string where
  \<open>sample_payload = ''[{"dn":"B0:CE:18:C3:3A:A2","type":"brightness","value":"25"},{"dn":"B0:CE:18:C3:3A:A2","type":"switch","value":"1"},{"dn":"B0:CE:18:C3:3A:A2","type":"colorTemperature","value":"200"},{"dn":"B0:CE:18:C3:3A:A2","type":"supportAttributes","value":"brightness,switch,colorTemperature"},{"dn":"B0:CE:18:C3:3A:A2","type":"online","value":"1"}]''\<close>

definition sample_record :: "string \<Rightarrow> string \<Rightarrow> json" where
  "sample_record t v =
     JDict [(''dn'', JStr ''B0:CE:18:C3:3A:A2''), (''type'', JStr t), (''value'', JStr v)]"

definition sample_items :: "json list" where
  "sample_items =
     [sample_record ''brightness'' ''25'', sample_record ''switch'' ''1'',
      sample_record ''colorTemperature'' ''200'',
      sample_record ''supportAttributes'' ''brightness,switch,colorTemperature'',
      sample_record ''online'' ''1'']"

text \<open>A short payload: one record, whose value is a number.\<close>

definition short_payload :: string where
  \<open>short_payload = ''[{"dn":"B0:CE:18:C3:3A:A2","type":"brightness","value":25}]''\<close>

definition short_items :: "json list" where
  "short_items =
     [JDict [(''dn'', JStr ''B0:CE:18:C3:3A:A2''), (''type'', JStr ''brightness''),
             (''value'', JInt 25)]]"

text \<open>\<^verbatim>\<open>json.loads\<close> on the two sample payloads; any other text here is not JSON.\<close>

definition sample_loads :: "string \<Rightarrow> py_error + json" where
  "sample_loads p =
     (if p = sample_payload then Inr (JList sample_items)
      else if p = short_payload then Inr (JList short_items)
      else Inl JSONDecodeError)"

definition sample_attributes :: pydict where
  "sample_attributes =
     [(JStr ''brightness'', JStr ''25''), (JStr ''switch'', JStr ''1''),
      (JStr ''colorTemperature'', JStr ''200''),
      (JStr ''supportAttributes'', JStr ''brightness,switch,colorTemperature''),
      (JStr ''online'', JStr ''1'')]"

definition sample_status :: status_data where
  "sample_status =
     \<lparr>status_mac = JStr ''B0:CE:18:C3:3A:A2'', status_attributes = Some sample_attributes,
      status_timestamp = 1000\<rparr>"

definition caps_status :: status_data where
  "caps_status =
     \<lparr>status_mac = JStr ''AA'',
      status_attributes = Some [(JStr ''supportAttributes'', JStr ''brightness, switch,color'')],
      status_timestamp = 1000\<rparr>"

text \<open>A stored record, and an update whose one attribute is a string of 1 MiB.\<close>

definition dev_AA :: device where
  "dev_AA = \<lparr>mac = ''AA'', first_seen = 1000, last_seen = 1000, capabilities = [],
             attributes = [(JStr ''switch'', JStr ''1'')]\<rparr>"

definition store_AA :: store where
  "store_AA = \<lparr>devices = [(''AA'', dev_AA)], disk = Some [(''AA'', dev_AA)]\<rparr>"

definition big_value :: string where
  "big_value = replicate 1048576 CHR ''a''"

definition big_status :: status_data where
  "big_status =
     \<lparr>status_mac = JStr ''AA'', status_attributes = Some [(JStr ''x'', JStr big_value)],
      status_timestamp = 2000\<rparr>"

text \<open>A store at the ceiling: 200 records under the keys A, AA, AAA and so on.\<close>

definition full_devices :: device_map where
  "full_devices =
     map (\<lambda>n. (replicate (Suc n) CHR ''A'',
               \<lparr>mac = replicate (Suc n) CHR ''A'', first_seen = 1000, last_seen = 1000,
                capabilities = [], attributes = []\<rparr>)) [0..<200]"

definition full_store :: store where
  "full_store = \<lparr>devices = full_devices, disk = Some full_devices\<rparr>"




text \<open>The record that the update \<open>caps_status\<close> at clock 2 s creates, with a given \<^verbatim>\<open>last_seen\<close>.\<close>

definition caps_record :: "int \<Rightarrow> device" where
  "caps_record t =
     \<lparr>mac = ''AA'', first_seen = 2000, last_seen = t,
      capabilities = [''brightness'', ''switch'', ''color''],
      attributes = [(JStr ''supportAttributes'', JStr ''brightness, switch,color'')]\<rparr>"

section \<open>Facts about dictionaries\<close>

lemma dict_update_Nil [simp]: "dict_update d [] = d"
  by (simp add: dict_update_def)

lemma dict_update_Cons [simp]: "dict_update d ((k, v) # other) = dict_update (dict_set k v d) other"
  by (simp add: dict_update_def)

lemma dict_get_set:
  "dict_get (dict_set k v d) k' = (if canon k = canon k' then Some v else dict_get d k')"
  by (induction d) auto

lemma dict_set_same_value: "dict_get d k = Some v \<Longrightarrow> dict_set k v d = d"
  by (induction d) (auto split: if_splits)

lemma dict_set_twice:
  "canon k = canon k' \<Longrightarrow> dict_get d k \<noteq> None \<Longrightarrow> dict_set k' v' (dict_set k v d) = dict_set k' v' d"
  by (induction d) (auto split: if_splits)

lemma dict_set_swap:
  "canon k \<noteq> canon k' \<Longrightarrow> dict_get d k \<noteq> None \<Longrightarrow>
   dict_set k' v' (dict_set k v d) = dict_set k v (dict_set k' v' d)"
  by (induction d) (auto split: if_splits)

lemma dict_get_update_other:
  "\<forall>(k', v') \<in> set other. canon k' \<noteq> canon k \<Longrightarrow> dict_get (dict_update d other) k = dict_get d k"
  by (induction other arbitrary: d) (auto simp: dict_get_set)

lemma dict_get_update_present:
  "dict_get d k \<noteq> None \<Longrightarrow> dict_get (dict_update d other) k \<noteq> None"
  by (induction other arbitrary: d) (auto simp: dict_get_set)

lemma dict_update_after_set:
  "dict_get d k \<noteq> None \<Longrightarrow>
   dict_update (dict_set k v d) other =
     (if \<exists>(k', v') \<in> set other. canon k' = canon k then dict_update d other
      else dict_set k v (dict_update d other))"
proof (induction other arbitrary: d)
  case Nil
  then show ?case by simp
next
  case (Cons x other)
  obtain k1 v1 where x: "x = (k1, v1)" by (cases x)
  show ?case
  proof (cases "canon k = canon k1")
    case True
    with Cons.prems show ?thesis
      by (simp add: x dict_set_twice)
  next
    case False
    have present: "dict_get (dict_set k1 v1 d) k \<noteq> None"
      using Cons.prems by (simp add: dict_get_set)
    have "dict_set k1 v1 (dict_set k v d) = dict_set k v (dict_set k1 v1 d)"
      using False Cons.prems by (rule dict_set_swap)
    with False Cons.IH [OF present] show ?thesis
      by (auto simp: x)
  qed
qed

lemma dict_update_idem: "dict_update (dict_update d other) other = dict_update d other"
proof (induction other arbitrary: d)
  case Nil
  show ?case by simp
next
  case (Cons x other)
  obtain k v where x: "x = (k, v)" by (cases x)
  define e where "e = dict_update (dict_set k v d) other"
  have IH: "dict_update e other = e"
    unfolding e_def by (rule Cons.IH)
  have present: "dict_get e k \<noteq> None"
    unfolding e_def by (rule dict_get_update_present) (simp add: dict_get_set)
  have "dict_update (dict_set k v e) other = e"
  proof (cases "\<exists>(k', v') \<in> set other. canon k' = canon k")
    case True
    with dict_update_after_set [OF present] IH show ?thesis by simp
  next
    case False
    then have "dict_get e k = dict_get (dict_set k v d) k"
      unfolding e_def by (intro dict_get_update_other) auto
    then have "dict_set k v e = e"
      by (simp add: dict_get_set dict_set_same_value)
    with IH show ?thesis by simp
  qed
  then show ?case by (simp add: x e_def)
qed

lemma dict_get_update:
  "dict_get (dict_update d other) k =
     (case dict_get (rev other) k of Some v \<Rightarrow> Some v | None \<Rightarrow> dict_get d k)"
proof (induction other arbitrary: d)
  case Nil
  show ?case by simp
next
  case (Cons x other)
  obtain k1 v1 where x: "x = (k1, v1)" by (cases x)
  have app: "\<And>xs ys. dict_get (xs @ ys) k =
      (case dict_get xs k of Some v \<Rightarrow> Some v | None \<Rightarrow> dict_get ys k)"
    subgoal for xs ys by (induction xs) auto
    done
  show ?case
    by (simp add: x Cons.IH app dict_get_set split: option.splits)
qed

lemma keys_dict_set:
  "canon ` fst ` set (dict_set k v d) \<subseteq> insert (canon k) (canon ` fst ` set d)"
proof (induction d)
  case Nil
  show ?case by simp
next
  case (Cons p d)
  obtain k1 v1 where p: "p = (k1, v1)" by (cases p)
  from Cons show ?case
    by (cases "canon k1 = canon k") (auto simp: p)
qed

lemma distinct_dict_set:
  "distinct (map (canon \<circ> fst) d) \<Longrightarrow> distinct (map (canon \<circ> fst) (dict_set k v d))"
proof (induction d)
  case Nil
  show ?case by simp
next
  case (Cons p d)
  obtain k1 v1 where p: "p = (k1, v1)" by (cases p)
  show ?case
  proof (cases "canon k1 = canon k")
    case True
    with Cons.prems show ?thesis by (simp add: p)
  next
    case False
    have "canon k1 \<notin> canon ` fst ` set (dict_set k v d)"
      using keys_dict_set [of k v d] Cons.prems False by (auto simp: p image_iff)
    with Cons False show ?thesis by (simp add: p image_comp)
  qed
qed

lemma distinct_dict_update:
  "distinct (map (canon \<circ> fst) d) \<Longrightarrow> distinct (map (canon \<circ> fst) (dict_update d other))"
  by (induction other arbitrary: d) (auto simp: distinct_dict_set)

section \<open>Facts about keys and association lists\<close>

lemma upper_char_idem: "upper_char (upper_char c) = upper_char c"
  by (simp add: upper_char_def)

lemma upper_idem: "upper (upper s) = upper s"
  by (simp add: upper_def upper_char_idem)

lemma length_alist_update:
  "length (AList.update k v al) = (if map_of al k = None then Suc (length al) else length al)"
  by (induction al) auto

lemma set_alist_update: "set (AList.update k v al) \<subseteq> insert (k, v) (set al)"
  by (induction al) auto

lemma set_alist_delete: "set (AList.delete k al) \<subseteq> set al"
  by (auto simp: AList.delete_eq)

lemma map_of_alist_update_same: "map_of (AList.update k v al) k = Some v"
  by (simp add: update_conv')

section \<open>Accepted updates\<close>

text \<open>An update is accepted exactly when it passes the three checks and lines 153 to 155 go through.\<close>

lemma update_device_accept:
  assumes "passes_checks dl mac0 status s"
    and "caps_source_ok (merged_attributes (upper mac0) status s)"
  shows "update_device dl clock ok mac0 status s =
           (Returned True,
            save_devices ok (s\<lparr>devices := AList.update (upper mac0)
                                 (accepted_record clock (upper mac0) status s) (devices s)\<rparr>))"
  using assms
  by (auto simp: update_device_def passes_checks_def caps_source_ok_def merged_attributes_def
      accepted_record_def finish_update_def Let_def split: option.splits json.splits)

lemma update_device_accepted_iff:
  "fst (update_device dl clock ok mac0 status s) = Returned True \<longleftrightarrow>
     passes_checks dl mac0 status s \<and> caps_source_ok (merged_attributes (upper mac0) status s)"
  by (auto simp: update_device_def passes_checks_def caps_source_ok_def merged_attributes_def
      finish_update_def Let_def split: option.splits json.splits)

lemma devices_save_devices [simp]: "devices (save_devices ok s) = devices s"
  by (simp add: save_devices_def)

lemma attributes_accepted_record [simp]:
  "attributes (accepted_record clock k status s) = merged_attributes k status s"
  by (simp add: accepted_record_def Let_def)

lemma last_seen_accepted_record [simp]:
  "last_seen (accepted_record clock k status s) = py_int (clock * 1000)"
  by (simp add: accepted_record_def Let_def)

section \<open>Sample evaluations\<close>

lemma upper_aa: "upper ''aa'' = ''AA''"
  by (simp add: upper_def upper_char_def)

lemma upper_AA: "upper ''AA'' = ''AA''"
  by (simp add: upper_def upper_char_def)

lemma py_int_2000: "py_int (2 * 1000) = 2000"
  by (simp add: py_int_def)

lemma py_int_numeral [simp]: "py_int (numeral n) = numeral n"
  by (simp add: py_int_def)

lemma merged_sample_AA:
  "merged_attributes ''AA'' sample_status store_AA =
     [(JStr ''switch'', JStr ''1''), (JStr ''brightness'', JStr ''25''),
      (JStr ''colorTemperature'', JStr ''200''),
      (JStr ''supportAttributes'', JStr ''brightness,switch,colorTemperature''),
      (JStr ''online'', JStr ''1'')]"
  by (simp add: merged_attributes_def sample_status_def store_AA_def dev_AA_def
      sample_attributes_def)

lemma passes_checks_sample_AA: "passes_checks plain_dumps_len ''AA'' sample_status store_AA"
  unfolding passes_checks_def upper_AA merged_sample_AA
  by (simp add: store_AA_def sample_status_def plain_dumps_len_def plain_text_len_def
      MAX_DEVICE_SIZE_BYTES_def)

lemma caps_source_ok_sample_AA:
  "caps_source_ok (merged_attributes (upper ''AA'') sample_status store_AA)"
  unfolding upper_AA merged_sample_AA by (simp add: caps_source_ok_def)

lemma strip_samples:
  "strip ''brightness'' = ''brightness''" "strip '' switch'' = ''switch''"
  "strip ''color'' = ''color''"
  unfolding strip_def by (simp_all add: is_space_def Let_def)

lemma caps_tokens:
  "map strip (split_on CHR '','' ''brightness, switch,color'') = [''brightness'', ''switch'', ''color'']"
  by (simp add: strip_samples)

lemma merged_caps_empty:
  "merged_attributes ''AA'' caps_status empty_store =
     [(JStr ''supportAttributes'', JStr ''brightness, switch,color'')]"
  by (simp add: merged_attributes_def caps_status_def empty_store_def)

lemma passes_checks_caps: "passes_checks plain_dumps_len ''aa'' caps_status empty_store"
  unfolding passes_checks_def upper_aa merged_caps_empty
  by (simp add: empty_store_def caps_status_def plain_dumps_len_def plain_text_len_def
      MAX_DEVICE_SIZE_BYTES_def MAX_DEVICES_def)

lemma update_caps_empty:
  "update_device plain_dumps_len 2 write_ok ''aa'' caps_status empty_store =
     (Returned True,
      save_devices write_ok
        \<lparr>devices = [(''AA'', \<lparr>mac = ''AA'', first_seen = 2000, last_seen = 2000,
           capabilities = [''brightness'', ''switch'', ''color''],
           attributes = [(JStr ''supportAttributes'', JStr ''brightness, switch,color'')]\<rparr>)],
         disk = None\<rparr>)"
proof -
  have ok: "caps_source_ok (merged_attributes (upper ''aa'') caps_status empty_store)"
    unfolding upper_aa merged_caps_empty by (simp add: caps_source_ok_def)
  have r: "accepted_record 2 ''AA'' caps_status empty_store =
      \<lparr>mac = ''AA'', first_seen = 2000, last_seen = 2000,
       capabilities = [''brightness'', ''switch'', ''color''],
       attributes = [(JStr ''supportAttributes'', JStr ''brightness, switch,color'')]\<rparr>"
    unfolding accepted_record_def Let_def merged_caps_empty py_int_2000
    by (simp add: empty_store_def strip_samples)
  show ?thesis
    unfolding update_device_accept [OF passes_checks_caps ok] upper_aa r
    by (simp add: empty_store_def)
qed

section \<open>Rejection of an oversized update\<close>

text \<open>
  What the size check does on every store: the update is rejected; for a new key the
  store is untouched, and for a stored key the dictionary, the attributes, the
  capabilities and \<^verbatim>\<open>first_seen\<close> of the record and the snapshot are untouched while
  the record's \<^verbatim>\<open>last_seen\<close> is the current time.
\<close>

lemma update_device_too_large:
  assumes "mac0 \<noteq> []"
    and "map_of (devices s) (upper mac0) \<noteq> None \<or> length (devices s) < MAX_DEVICES"
    and "status_attributes status \<noteq> None"
    and "MAX_DEVICE_SIZE_BYTES < dumps_len (merged_attributes (upper mac0) status s)"
  shows "update_device dumps_len clock write_ok mac0 status s =
     (Returned False,
      case map_of (devices s) (upper mac0) of
        None \<Rightarrow> s
      | Some d \<Rightarrow> s\<lparr>devices := AList.update (upper mac0)
                       (d\<lparr>last_seen := py_int (clock * 1000)\<rparr>) (devices s)\<rparr>)"
  using assms
  by (auto simp: update_device_def merged_attributes_def write_through_def Let_def
      split: option.splits)

text \<open>
  C1. An update of a stored identifier whose merged attributes serialise to more than
  \<open>MAX_DEVICE_SIZE_BYTES\<close> is rejected, and the claim has the stored record keep all
  its fields. Run on the store that holds \<^verbatim>\<open>AA\<close> with \<^verbatim>\<open>last_seen\<close> 1000, at clock
  2 s and with an attribute of 1 MiB, \<^verbatim>\<open>update_device\<close> answers \<^verbatim>\<open>False\<close> and leaves the
  snapshot, the attributes, the capabilities and \<^verbatim>\<open>first_seen\<close> alone, but the stored
  record now has \<^verbatim>\<open>last_seen\<close> 2000: line 136 assigns to the stored dictionary before
  the size check of line 146.
\<close>

theorem update_device_oversize_existing:
  "update_device plain_dumps_len 2 True ''AA'' big_status store_AA =
     (Returned False, store_AA\<lparr>devices := [(''AA'', dev_AA\<lparr>last_seen := 2000\<rparr>)]\<rparr>)
   \<and> MAX_DEVICE_SIZE_BYTES < plain_dumps_len (merged_attributes ''AA'' big_status store_AA)
   \<and> map_of (devices store_AA) ''AA'' = Some dev_AA
   \<and> last_seen dev_AA = 1000"
proof -
  have now: "py_int (2 * 1000) = 2000"
    by (simp add: py_int_def)
  have len: "length big_value = 1048576"
    by (simp add: big_value_def)
  have merged: "dict_update [(JStr ''switch'', JStr ''1'')] [(JStr ''x'', JStr big_value)] =
      [(JStr ''switch'', JStr ''1''), (JStr ''x'', JStr big_value)]"
    by simp
  have size: "MAX_DEVICE_SIZE_BYTES <
      plain_dumps_len [(JStr ''switch'', JStr ''1''), (JStr ''x'', JStr big_value)]"
    by (simp add: plain_dumps_len_def plain_text_len_def len MAX_DEVICE_SIZE_BYTES_def)
  have m: "merged_attributes ''AA'' big_status store_AA =
      [(JStr ''switch'', JStr ''1''), (JStr ''x'', JStr big_value)]"
    by (simp add: merged_attributes_def big_status_def store_AA_def dev_AA_def)
  have "update_device plain_dumps_len 2 True ''AA'' big_status store_AA =
     (Returned False, store_AA\<lparr>devices := [(''AA'', dev_AA\<lparr>last_seen := 2000\<rparr>)]\<rparr>)"
    unfolding update_device_def Let_def upper_AA now
    using size by (simp add: write_through_def big_status_def store_AA_def dev_AA_def merged)
  with size m show ?thesis
    by (simp add: store_AA_def dev_AA_def)
qed

section \<open>Capabilities\<close>

text \<open>
  C8. After an accepted update the record under the upper-cased identifier holds the
  merged attributes. When these contain \<^verbatim>\<open>supportAttributes\<close>, its value is a string and
  the capabilities are its comma-separated pieces, each stripped of white space, in
  order; when they do not, the capabilities are the ones the record had before (none for
  a new record).
\<close>

theorem capabilities_follow_supportAttributes:
  assumes "update_device dumps_len clock write_ok mac0 status s = (Returned True, s')"
  shows "\<exists>d'. map_of (devices s') (upper mac0) = Some d'
           \<and> attributes d' = merged_attributes (upper mac0) status s
           \<and> (case dict_get (attributes d') (JStr ''supportAttributes'') of
                 Some v \<Rightarrow> \<exists>caps_str. v = JStr caps_str
                            \<and> capabilities d' = map strip (split_on CHR '','' caps_str)
               | None \<Rightarrow> capabilities d' =
                   (case map_of (devices s) (upper mac0) of
                      Some d \<Rightarrow> capabilities d | None \<Rightarrow> []))"
proof -
  from assms have "fst (update_device dumps_len clock write_ok mac0 status s) = Returned True"
    by simp
  then have checks: "passes_checks dumps_len mac0 status s"
    and ok: "caps_source_ok (merged_attributes (upper mac0) status s)"
    by (simp_all add: update_device_accepted_iff)
  from update_device_accept [OF checks ok, of clock write_ok] assms
  have s': "s' = save_devices write_ok (s\<lparr>devices := AList.update (upper mac0)
                 (accepted_record clock (upper mac0) status s) (devices s)\<rparr>)"
    by simp
  have caps: "case dict_get (merged_attributes (upper mac0) status s) (JStr ''supportAttributes'') of
                 Some v \<Rightarrow> \<exists>caps_str. v = JStr caps_str
                   \<and> capabilities (accepted_record clock (upper mac0) status s) =
                       map strip (split_on CHR '','' caps_str)
               | None \<Rightarrow> capabilities (accepted_record clock (upper mac0) status s) =
                   (case map_of (devices s) (upper mac0) of
                      Some d \<Rightarrow> capabilities d | None \<Rightarrow> [])"
    using ok
    by (auto simp: caps_source_ok_def accepted_record_def Let_def split: option.splits json.splits)
  show ?thesis
    using caps by (simp add: s' map_of_alist_update_same)
qed

text \<open>The value \<^verbatim>\<open>"brightness, switch,color"\<close> gives brightness, switch, color.\<close>

theorem capabilities_follow_supportAttributes_witness:
  "\<exists>s' d'. update_device plain_dumps_len 2 True ''aa'' caps_status empty_store = (Returned True, s')
     \<and> map_of (devices s') ''AA'' = Some d'
     \<and> dict_get (attributes d') (JStr ''supportAttributes'') = Some (JStr ''brightness, switch,color'')
     \<and> capabilities d' = [''brightness'', ''switch'', ''color'']"
proof -
  let ?s' = "snd (update_device plain_dumps_len 2 True ''aa'' caps_status empty_store)"
  have run: "update_device plain_dumps_len 2 True ''aa'' caps_status empty_store = (Returned True, ?s')"
    by (simp add: update_caps_empty)
  from capabilities_follow_supportAttributes [OF run]
  obtain d' where d': "map_of (devices ?s') (upper ''aa'') = Some d'"
    and a: "attributes d' = merged_attributes (upper ''aa'') caps_status empty_store"
    and c: "case dict_get (attributes d') (JStr ''supportAttributes'') of
                 Some v \<Rightarrow> \<exists>caps_str. v = JStr caps_str
                            \<and> capabilities d' = map strip (split_on CHR '','' caps_str)
               | None \<Rightarrow> capabilities d' =
                   (case map_of (devices empty_store) (upper ''aa'') of
                      Some d \<Rightarrow> capabilities d | None \<Rightarrow> [])"
    by blast
  from a have a': "attributes d' = [(JStr ''supportAttributes'', JStr ''brightness, switch,color'')]"
    by (simp add: upper_aa merged_caps_empty)
  from c have "capabilities d' = [''brightness'', ''switch'', ''color'']"
    by (simp add: a' strip_samples)
  with run d' a' show ?thesis
    by (auto simp: upper_aa)
qed

section \<open>Failure of the persistence step\<close>

text \<open>
  C9. An update that passes the identifier, capacity and size checks and reaches the
  persistence step returns \<^verbatim>\<open>True\<close> without raising also when the write fails; the
  in-memory dictionary then holds the record with the merged attributes and the new
  \<^verbatim>\<open>last_seen\<close>, and the snapshot is the one from before.
\<close>

theorem persistence_failure_keeps_update:
  assumes "passes_checks dumps_len mac0 status s"
    and "caps_source_ok (merged_attributes (upper mac0) status s)"
  shows "\<exists>s' d'. update_device dumps_len clock False mac0 status s = (Returned True, s')
           \<and> disk s' = disk s
           \<and> map_of (devices s') (upper mac0) = Some d'
           \<and> attributes d' = merged_attributes (upper mac0) status s
           \<and> last_seen d' = py_int (clock * 1000)"
  using update_device_accept [OF assms, of clock False]
  by (simp add: save_devices_def map_of_alist_update_same)

theorem persistence_failure_keeps_update_witness:
  "passes_checks plain_dumps_len ''AA'' sample_status store_AA
   \<and> caps_source_ok (merged_attributes (upper ''AA'') sample_status store_AA)
   \<and> (\<exists>s' d'. update_device plain_dumps_len 2 False ''AA'' sample_status store_AA = (Returned True, s')
         \<and> disk s' = Some [(''AA'', dev_AA)]
         \<and> map_of (devices s') ''AA'' = Some d'
         \<and> dict_get (attributes d') (JStr ''online'') = Some (JStr ''1'')
         \<and> last_seen d' = 2000)"
proof -
  have d: "disk store_AA = Some [(''AA'', dev_AA)]"
    by (simp add: store_AA_def)
  have m: "dict_get (merged_attributes ''AA'' sample_status store_AA) (JStr ''online'') = Some (JStr ''1'')"
    unfolding merged_sample_AA by simp
  from persistence_failure_keeps_update [OF passes_checks_sample_AA caps_source_ok_sample_AA, of 2]
  obtain s' d' where
    "update_device plain_dumps_len 2 False ''AA'' sample_status store_AA = (Returned True, s')"
    "disk s' = disk store_AA" "map_of (devices s') (upper ''AA'') = Some d'"
    "attributes d' = merged_attributes (upper ''AA'') sample_status store_AA"
    "last_seen d' = py_int (2 * 1000)"
    by blast
  then have "update_device plain_dumps_len 2 False ''AA'' sample_status store_AA = (Returned True, s')
         \<and> disk s' = Some [(''AA'', dev_AA)]
         \<and> map_of (devices s') ''AA'' = Some d'
         \<and> dict_get (attributes d') (JStr ''online'') = Some (JStr ''1'')
         \<and> last_seen d' = 2000"
    by (simp add: upper_AA d m py_int_2000)
  with passes_checks_sample_AA caps_source_ok_sample_AA show ?thesis
    by blast
qed

section \<open>Invariants of the device dictionary\<close>

lemma keys_canonical_iff:
  "keys_canonical s \<longleftrightarrow> (\<forall>(k, d) \<in> set (devices s). mac d = k \<and> upper k = k)"
  by (simp add: keys_canonical_def list_all_iff)

lemma keys_canonical_store:
  assumes "keys_canonical s" and "mac d = k" and "upper k = k"
  shows "keys_canonical (s\<lparr>devices := AList.update k d (devices s)\<rparr>)"
  using assms set_alist_update [of k d "devices s"]
  by (auto simp: keys_canonical_iff)

lemma keys_canonical_save [simp]: "keys_canonical (save_devices ok s) = keys_canonical s"
  by (simp add: keys_canonical_def)

lemma keys_canonical_lookup:
  "keys_canonical s \<Longrightarrow> map_of (devices s) k = Some d \<Longrightarrow> mac d = k \<and> upper k = k"
  by (auto simp: keys_canonical_iff dest: map_of_SomeD)

lemma keys_canonical_finish_update:
  assumes "keys_canonical s" and "mac d = k" and "upper k = k"
  shows "keys_canonical (snd (finish_update ok is_new k d s))"
  using assms
  by (auto simp: finish_update_def write_through_def Let_def
      intro!: keys_canonical_store split: option.splits json.splits)

lemma keys_canonical_update_device:
  assumes "keys_canonical s"
  shows "keys_canonical (snd (update_device dl clock ok mac0 status s))"
proof (cases "mac0 = [] \<or> (map_of (devices s) (upper mac0) = None \<and> MAX_DEVICES \<le> length (devices s))")
  case True
  with assms show ?thesis
    by (auto simp: update_device_def Let_def)
next
  case False
  define k where "k = upper mac0"
  define t where "t = py_int (clock * 1000)"
  define d0 where "d0 = (case map_of (devices s) k of
      Some d \<Rightarrow> d
    | None \<Rightarrow> \<lparr>mac = k, first_seen = t, last_seen = t, capabilities = [], attributes = []\<rparr>)"
  have up: "upper k = k"
    by (simp add: k_def upper_idem)
  have m: "mac d0 = k"
    using keys_canonical_lookup [OF assms, of k]
    by (auto simp: d0_def split: option.splits)
  have wt: "keys_canonical (write_through b k (d0\<lparr>last_seen := t\<rparr>) s)" for b
    using assms m up by (auto simp: write_through_def intro!: keys_canonical_store)
  have fin: "keys_canonical (snd (finish_update ok b k (d0\<lparr>last_seen := t, attributes := a\<rparr>) s))" for b a
    using assms m up by (intro keys_canonical_finish_update) simp_all
  have fin': "keys_canonical (snd (finish_update ok b k (d0\<lparr>last_seen := t\<rparr>) s))" for b
    using assms m up by (intro keys_canonical_finish_update) simp_all
  from False wt fin fin' show ?thesis
    by (auto simp: update_device_def Let_def k_def [symmetric] t_def [symmetric] d0_def [symmetric]
        split: option.splits)
qed

lemma set_fold_delete: "set (fold AList.delete ks al) \<subseteq> set al"
proof (induction ks arbitrary: al)
  case Nil
  show ?case by simp
next
  case (Cons k ks)
  from Cons [of "AList.delete k al"] set_alist_delete [of k al] show ?case
    by auto
qed

lemma keys_canonical_cleanup:
  assumes "keys_canonical s"
  shows "keys_canonical (snd (cleanup_old_devices clock days ok s))"
  using assms set_fold_delete [of _ "devices s"]
  by (auto simp: cleanup_old_devices_def Let_def keys_canonical_iff save_devices_def)

lemma keys_canonical_step: "keys_canonical s \<Longrightarrow> keys_canonical (step dl c s)"
  by (cases c) (simp_all add: keys_canonical_update_device keys_canonical_cleanup)

lemma keys_canonical_run: "keys_canonical s \<Longrightarrow> keys_canonical (run dl cs s)"
  by (induction cs arbitrary: s) (simp_all add: keys_canonical_step)

text \<open>
  C10. Whatever calls of \<^verbatim>\<open>update_device\<close>, \<^verbatim>\<open>cleanup_old_devices\<close>, \<^verbatim>\<open>get_device\<close>,
  \<^verbatim>\<open>get_all_devices\<close> and \<^verbatim>\<open>get_storage_stats\<close> are made on the empty store, in the
  resulting dictionary every record's \<^verbatim>\<open>mac\<close> field is the key it is stored under, and
  the key is equal to its own upper-case form.
\<close>

theorem stored_keys_are_canonical:
  "\<forall>(k, d) \<in> set (devices (run dumps_len calls empty_store)). mac d = k \<and> upper k = k"
proof -
  have "keys_canonical empty_store"
    by (simp add: keys_canonical_def empty_store_def)
  then have "keys_canonical (run dumps_len calls empty_store)"
    by (rule keys_canonical_run)
  then show ?thesis
    by (simp add: keys_canonical_iff)
qed


theorem stored_keys_are_canonical_witness:
  "devices (run plain_dumps_len
      [Update 2 True ''aa'' caps_status, GetDevice ''aa'', Cleanup 3 30 True, GetAll, GetStats 0]
      empty_store) =
     [(''AA'', \<lparr>mac = ''AA'', first_seen = 2000, last_seen = 2000,
        capabilities = [''brightness'', ''switch'', ''color''],
        attributes = [(JStr ''supportAttributes'', JStr ''brightness, switch,color'')]\<rparr>)]
   \<and> upper ''AA'' = ''AA''"
proof -
  have cutoff: "py_int ((3 - of_int (30 * 24 * 3600)) * 1000) = - 2591997000"
    by (simp add: py_int_def)
  have d: "devices (run plain_dumps_len
      [Update 2 True ''aa'' caps_status, GetDevice ''aa'', Cleanup 3 30 True, GetAll, GetStats 0]
      empty_store) =
     [(''AA'', \<lparr>mac = ''AA'', first_seen = 2000, last_seen = 2000,
        capabilities = [''brightness'', ''switch'', ''color''],
        attributes = [(JStr ''supportAttributes'', JStr ''brightness, switch,color'')]\<rparr>)]"
    unfolding run.simps step.simps update_caps_empty cleanup_old_devices_def Let_def cutoff
    by (simp add: save_devices_def)
  from stored_keys_are_canonical [of plain_dumps_len
      "[Update 2 True ''aa'' caps_status, GetDevice ''aa'', Cleanup 3 30 True, GetAll, GetStats 0]"]
  have "upper ''AA'' = ''AA''"
    unfolding d by simp
  with d show ?thesis by simp
qed

section \<open>The ceiling on the number of devices\<close>

lemma devices_update_device:
  "devices (snd (update_device dl clock ok mac0 status s)) = devices s
   \<or> (\<exists>d'. devices (snd (update_device dl clock ok mac0 status s)) =
              AList.update (upper mac0) d' (devices s)
          \<and> (map_of (devices s) (upper mac0) \<noteq> None \<or> length (devices s) < MAX_DEVICES))"
  by (auto simp: update_device_def finish_update_def write_through_def Let_def
      split: option.splits json.splits)

lemma length_update_device:
  assumes "length (devices s) \<le> MAX_DEVICES"
  shows "length (devices (snd (update_device dl clock ok mac0 status s))) \<le> MAX_DEVICES"
  using assms devices_update_device [of dl clock ok mac0 status s]
  by (auto simp: length_alist_update)

lemma distinct_update_device:
  assumes "distinct (map fst (devices s))"
  shows "distinct (map fst (devices (snd (update_device dl clock ok mac0 status s))))"
  using assms devices_update_device [of dl clock ok mac0 status s]
  by (auto simp: distinct_update)

lemma run_updates_bounded:
  "length (devices s) \<le> MAX_DEVICES \<Longrightarrow> distinct (map fst (devices s)) \<Longrightarrow>
   length (devices (run_updates dl cs s)) \<le> MAX_DEVICES
   \<and> distinct (map fst (devices (run_updates dl cs s)))"
proof (induction cs arbitrary: s)
  case Nil
  then show ?case by simp
next
  case (Cons c cs)
  obtain clock ok mac0 status where c: "c = (clock, ok, mac0, status)"
    by (cases c)
  from Cons.prems show ?case
    by (simp add: c Cons.IH length_update_device distinct_update_device)
qed

lemma update_device_at_ceiling_new:
  assumes "MAX_DEVICES \<le> length (devices s)" and "map_of (devices s) (upper mac0) = None"
  shows "update_device dl clock ok mac0 status s = (Returned False, s)"
  using assms by (simp add: update_device_def Let_def)

lemma keys_alist_update_present:
  "map_of al k \<noteq> None \<Longrightarrow> map fst (AList.update k v al) = map fst al"
  by (induction al) auto

text \<open>
  C2. After any sequence of \<^verbatim>\<open>update_device\<close> calls on the empty store the dictionary has
  at most \<open>MAX_DEVICES\<close> keys, all different. In any store with exactly \<open>MAX_DEVICES\<close>
  records, an update whose upper-cased identifier is not a key is rejected and leaves the
  store as it is (no record created, none evicted); an update whose upper-cased
  identifier is a key, and which passes the checks, is accepted and leaves the set of
  keys as it is.
\<close>

theorem device_count_ceiling:
  "length (devices (run_updates dumps_len calls empty_store)) \<le> MAX_DEVICES
   \<and> distinct (map fst (devices (run_updates dumps_len calls empty_store)))
   \<and> (length (devices s) = MAX_DEVICES \<and> map_of (devices s) (upper new_mac) = None \<longrightarrow>
        update_device dumps_len clock write_ok new_mac status s = (Returned False, s))
   \<and> (length (devices s) = MAX_DEVICES \<and> map_of (devices s) (upper old_mac) \<noteq> None
        \<and> passes_checks dumps_len old_mac status s
        \<and> caps_source_ok (merged_attributes (upper old_mac) status s) \<longrightarrow>
        fst (update_device dumps_len clock write_ok old_mac status s) = Returned True
        \<and> map fst (devices (snd (update_device dumps_len clock write_ok old_mac status s))) =
            map fst (devices s))"
proof -
  have "length (devices empty_store) \<le> MAX_DEVICES" "distinct (map fst (devices empty_store))"
    by (simp_all add: empty_store_def)
  then have bounded: "length (devices (run_updates dumps_len calls empty_store)) \<le> MAX_DEVICES
      \<and> distinct (map fst (devices (run_updates dumps_len calls empty_store)))"
    by (rule run_updates_bounded)
  have new: "update_device dumps_len clock write_ok new_mac status s = (Returned False, s)"
    if "length (devices s) = MAX_DEVICES" "map_of (devices s) (upper new_mac) = None"
    using that by (intro update_device_at_ceiling_new) simp_all
  have old: "fst (update_device dumps_len clock write_ok old_mac status s) = Returned True
        \<and> map fst (devices (snd (update_device dumps_len clock write_ok old_mac status s))) =
            map fst (devices s)"
    if "map_of (devices s) (upper old_mac) \<noteq> None" "passes_checks dumps_len old_mac status s"
      "caps_source_ok (merged_attributes (upper old_mac) status s)"
    using that by (simp add: update_device_accept keys_alist_update_present)
  from bounded new old show ?thesis
    by blast
qed


lemma length_full_devices: "length full_devices = 200"
  by (simp add: full_devices_def)

lemma full_devices_unfold:
  "full_devices =
     (''A'', \<lparr>mac = ''A'', first_seen = 1000, last_seen = 1000, capabilities = [],
              attributes = []\<rparr>) #
     map (\<lambda>n. (replicate (Suc n) CHR ''A'',
               \<lparr>mac = replicate (Suc n) CHR ''A'', first_seen = 1000, last_seen = 1000,
                capabilities = [], attributes = []\<rparr>)) [Suc 0..<200]"
proof -
  have "[0..<200] = 0 # [Suc 0..<200]"
    by (rule upt_conv_Cons) simp
  then show ?thesis
    by (simp add: full_devices_def)
qed

lemma map_of_full_devices_A:
  "map_of full_devices ''A'' =
     Some \<lparr>mac = ''A'', first_seen = 1000, last_seen = 1000, capabilities = [], attributes = []\<rparr>"
  by (subst full_devices_unfold) simp

lemma map_of_full_devices_B: "map_of full_devices ''B'' = None"
  by (auto simp: map_of_eq_None_iff full_devices_def)

lemma upper_A_B: "upper ''A'' = ''A''" "upper ''B'' = ''B''"
  by (simp_all add: upper_def upper_char_def)

lemma merged_caps_full:
  "merged_attributes ''A'' caps_status full_store =
     [(JStr ''supportAttributes'', JStr ''brightness, switch,color'')]"
  by (simp add: merged_attributes_def caps_status_def full_store_def map_of_full_devices_A)

lemma passes_checks_caps_full: "passes_checks plain_dumps_len ''A'' caps_status full_store"
  unfolding passes_checks_def upper_A_B merged_caps_full
  by (simp add: full_store_def map_of_full_devices_A caps_status_def plain_dumps_len_def
      plain_text_len_def MAX_DEVICE_SIZE_BYTES_def)

theorem device_count_ceiling_witness:
  "length (devices (run_updates plain_dumps_len [(2, True, ''aa'', caps_status)] empty_store)) = 1
   \<and> length (devices full_store) = MAX_DEVICES
   \<and> map_of (devices full_store) (upper ''B'') = None
   \<and> update_device plain_dumps_len 2 True ''B'' caps_status full_store = (Returned False, full_store)
   \<and> map_of (devices full_store) (upper ''A'') \<noteq> None
   \<and> passes_checks plain_dumps_len ''A'' caps_status full_store
   \<and> caps_source_ok (merged_attributes (upper ''A'') caps_status full_store)
   \<and> fst (update_device plain_dumps_len 2 True ''A'' caps_status full_store) = Returned True
   \<and> map fst (devices (snd (update_device plain_dumps_len 2 True ''A'' caps_status full_store))) =
       map fst (devices full_store)"
proof -
  have one: "length (devices (run_updates plain_dumps_len [(2, True, ''aa'', caps_status)]
      empty_store)) = 1"
    by (simp add: update_caps_empty)
  have full: "length (devices full_store) = MAX_DEVICES"
    by (simp add: full_store_def length_full_devices MAX_DEVICES_def)
  have absent: "map_of (devices full_store) (upper ''B'') = None"
    by (simp add: full_store_def upper_A_B map_of_full_devices_B)
  have present: "map_of (devices full_store) (upper ''A'') \<noteq> None"
    by (simp add: full_store_def upper_A_B map_of_full_devices_A)
  have ok: "caps_source_ok (merged_attributes (upper ''A'') caps_status full_store)"
    unfolding upper_A_B merged_caps_full by (simp add: caps_source_ok_def)
  from device_count_ceiling [of plain_dumps_len "[(2, True, ''aa'', caps_status)]" full_store
      "''B''" 2 True caps_status "''A''"]
    one full absent present passes_checks_caps_full ok
  show ?thesis by simp
qed

section \<open>Applying the same status twice\<close>

lemma same_but_last_seen_refl: "same_but_last_seen k ds ds"
  by (induction ds) (auto simp: same_but_last_seen_def)

lemma same_but_last_seen_update:
  "same_but_last_seen k (AList.update k r ds) (AList.update k (r\<lparr>last_seen := t\<rparr>) ds)"
proof (induction ds)
  case Nil
  show ?case by (simp add: same_but_last_seen_def)
next
  case (Cons p ds)
  obtain k1 d1 where p: "p = (k1, d1)" by (cases p)
  show ?case
  proof (cases "k1 = k")
    case True
    have "same_but_last_seen k ds ds" by (rule same_but_last_seen_refl)
    with True show ?thesis
      by (simp add: p same_but_last_seen_def)
  next
    case False
    with Cons show ?thesis
      by (simp add: p same_but_last_seen_def)
  qed
qed

lemma merged_attributes_after_accept:
  assumes "map_of (devices s1) k = Some (accepted_record clock k status s)"
  shows "merged_attributes k status s1 = merged_attributes k status s"
proof (cases "status_attributes status")
  case None
  with assms show ?thesis
    by (simp add: merged_attributes_def)
next
  case (Some a)
  have "merged_attributes k status s1 = dict_update (merged_attributes k status s) a"
    using assms Some by (simp add: merged_attributes_def)
  also have "\<dots> = merged_attributes k status s"
    using Some by (simp add: merged_attributes_def Let_def dict_update_idem)
  finally show ?thesis .
qed

lemma accepted_record_again:
  assumes "map_of (devices s1) k = Some (accepted_record clock1 k status s)"
  shows "accepted_record clock2 k status s1 =
           (accepted_record clock1 k status s)\<lparr>last_seen := py_int (clock2 * 1000)\<rparr>"
proof -
  have m: "merged_attributes k status s1 = merged_attributes k status s"
    using assms by (rule merged_attributes_after_accept)
  show ?thesis
    unfolding accepted_record_def [of clock2] Let_def m assms option.case
    by (simp add: accepted_record_def Let_def split: option.splits json.splits)
qed

lemma update_caps_first:
  "update_device plain_dumps_len 2 write_ok ''aa'' caps_status empty_store =
     (Returned True,
      save_devices write_ok \<lparr>devices = [(''AA'', caps_record 2000)], disk = None\<rparr>)"
  by (simp add: update_caps_empty caps_record_def)

lemma update_caps_again:
  "update_device plain_dumps_len 3 write_ok ''aa'' caps_status
       \<lparr>devices = [(''AA'', caps_record 2000)], disk = d\<rparr> =
     (Returned True,
      save_devices write_ok \<lparr>devices = [(''AA'', caps_record 3000)], disk = d\<rparr>)"
proof -
  let ?s1 = "\<lparr>devices = [(''AA'', caps_record 2000)], disk = d\<rparr>"
  have m: "merged_attributes ''AA'' caps_status ?s1 =
      [(JStr ''supportAttributes'', JStr ''brightness, switch,color'')]"
    by (simp add: merged_attributes_def caps_status_def caps_record_def)
  have checks: "passes_checks plain_dumps_len ''aa'' caps_status ?s1"
    unfolding passes_checks_def upper_aa m
    by (simp add: plain_dumps_len_def plain_text_len_def MAX_DEVICE_SIZE_BYTES_def)
  have ok: "caps_source_ok (merged_attributes (upper ''aa'') caps_status ?s1)"
    unfolding upper_aa m by (simp add: caps_source_ok_def)
  have t: "py_int (3 * 1000) = 3000"
    by (simp add: py_int_def)
  have r: "accepted_record 3 ''AA'' caps_status ?s1 = caps_record 3000"
    unfolding accepted_record_def Let_def m t
    by (simp add: caps_record_def strip_samples)
  show ?thesis
    unfolding update_device_accept [OF checks ok] upper_aa r
    by simp
qed

text \<open>
  C7, as the claim has it: after the second application the store, dictionary and
  snapshot, is the one after the first application except for one \<^verbatim>\<open>last_seen\<close>. On the
  empty store, with the first write failing and the second succeeding, both updates are
  accepted; after the first there is no snapshot, after the second the snapshot is the
  whole dictionary.
\<close>

theorem repeated_update_snapshot_counterexample:
  "update_device plain_dumps_len 2 False ''aa'' caps_status empty_store =
     (Returned True, \<lparr>devices = [(''AA'', caps_record 2000)], disk = None\<rparr>)
   \<and> update_device plain_dumps_len 3 True ''aa'' caps_status
       \<lparr>devices = [(''AA'', caps_record 2000)], disk = None\<rparr> =
     (Returned True,
      \<lparr>devices = [(''AA'', caps_record 3000)], disk = Some [(''AA'', caps_record 3000)]\<rparr>)
   \<and> disk \<lparr>devices = [(''AA'', caps_record 2000)], disk = None\<rparr> \<noteq>
       disk \<lparr>devices = [(''AA'', caps_record 3000)], disk = Some [(''AA'', caps_record 3000)]\<rparr>"
  by (simp add: update_caps_first update_caps_again save_devices_def)

text \<open>
  C7, amended. When an update is accepted, the same update made again right afterwards
  (at any later clock value) is accepted too, and the dictionary it leaves has the same
  keys in the same order and the same records, except for the \<^verbatim>\<open>last_seen\<close> of the record
  under the upper-cased identifier. The snapshot is the new dictionary when the second
  write succeeds and is untouched when it fails; when the first write succeeded, the
  snapshot after the second application is the one after the first except for that
  \<^verbatim>\<open>last_seen\<close>.
\<close>

theorem repeated_update_is_idempotent:
  assumes "update_device dumps_len clock1 ok1 mac0 status s = (Returned True, s1)"
  shows "\<exists>s2. update_device dumps_len clock2 ok2 mac0 status s1 = (Returned True, s2)
           \<and> same_but_last_seen (upper mac0) (devices s1) (devices s2)
           \<and> disk s2 = (if ok2 then Some (devices s2) else disk s1)
           \<and> (ok1 \<longrightarrow> (\<exists>ds1 ds2. disk s1 = Some ds1 \<and> disk s2 = Some ds2
                       \<and> same_but_last_seen (upper mac0) ds1 ds2))"
proof -
  define k where "k = upper mac0"
  define r where "r = accepted_record clock1 k status s"
  from assms have "fst (update_device dumps_len clock1 ok1 mac0 status s) = Returned True"
    by simp
  then have checks: "passes_checks dumps_len mac0 status s"
    and ok: "caps_source_ok (merged_attributes k status s)"
    by (simp_all add: update_device_accepted_iff k_def)
  from update_device_accept [OF checks, of clock1 ok1] ok assms
  have s1: "s1 = save_devices ok1 (s\<lparr>devices := AList.update k r (devices s)\<rparr>)"
    by (simp add: k_def r_def)
  then have stored: "map_of (devices s1) k = Some r"
    by (simp add: map_of_alist_update_same)
  then have m: "merged_attributes k status s1 = merged_attributes k status s"
    unfolding r_def by (rule merged_attributes_after_accept)
  have checks1: "passes_checks dumps_len mac0 status s1"
    using checks stored m by (simp add: passes_checks_def k_def [symmetric])
  have ok1: "caps_source_ok (merged_attributes (upper mac0) status s1)"
    using ok m by (simp add: k_def)
  have r2: "accepted_record clock2 k status s1 = r\<lparr>last_seen := py_int (clock2 * 1000)\<rparr>"
    using stored unfolding r_def by (rule accepted_record_again)
  define s2 where "s2 = save_devices ok2 (s1\<lparr>devices := AList.update k
      (r\<lparr>last_seen := py_int (clock2 * 1000)\<rparr>) (devices s1)\<rparr>)"
  have run2: "update_device dumps_len clock2 ok2 mac0 status s1 = (Returned True, s2)"
    using update_device_accept [OF checks1 ok1, of clock2 ok2]
    by (simp add: k_def [symmetric] r2 s2_def)
  have "devices s2 = AList.update k (r\<lparr>last_seen := py_int (clock2 * 1000)\<rparr>) (devices s)"
    by (simp add: s2_def s1)
  moreover have "devices s1 = AList.update k r (devices s)"
    by (simp add: s1)
  ultimately have same: "same_but_last_seen k (devices s1) (devices s2)"
    by (simp add: same_but_last_seen_update)
  have d2: "disk s2 = (if ok2 then Some (devices s2) else disk s1)"
    by (simp add: s2_def save_devices_def)
  have snap: "\<exists>ds1 ds2. disk s1 = Some ds1 \<and> disk s2 = Some ds2 \<and> same_but_last_seen k ds1 ds2"
    if ok1
  proof -
    from that have d1: "disk s1 = Some (devices s1)"
      by (simp add: s1 save_devices_def)
    show ?thesis
    proof (cases ok2)
      case True
      with d1 d2 same show ?thesis by simp
    next
      case False
      with d1 d2 same_but_last_seen_refl [of k "devices s1"] show ?thesis by simp
    qed
  qed
  from run2 same d2 snap show ?thesis
    by (auto simp: k_def)
qed

theorem repeated_update_is_idempotent_witness:
  "update_device plain_dumps_len 2 True ''aa'' caps_status empty_store =
     (Returned True,
      \<lparr>devices = [(''AA'', caps_record 2000)], disk = Some [(''AA'', caps_record 2000)]\<rparr>)
   \<and> (\<exists>s2 ds2. update_device plain_dumps_len 3 False ''aa'' caps_status
              \<lparr>devices = [(''AA'', caps_record 2000)], disk = Some [(''AA'', caps_record 2000)]\<rparr> =
            (Returned True, s2)
         \<and> same_but_last_seen ''AA'' [(''AA'', caps_record 2000)] (devices s2)
         \<and> disk s2 = Some ds2
         \<and> same_but_last_seen ''AA'' [(''AA'', caps_record 2000)] ds2)"
proof -
  let ?s1 = "\<lparr>devices = [(''AA'', caps_record 2000)], disk = Some [(''AA'', caps_record 2000)]\<rparr>"
  have run: "update_device plain_dumps_len 2 True ''aa'' caps_status empty_store = (Returned True, ?s1)"
    by (simp add: update_caps_first save_devices_def)
  from repeated_update_is_idempotent [OF run, of 3 False]
  obtain s2 ds1 ds2 where
    "update_device plain_dumps_len 3 False ''aa'' caps_status ?s1 = (Returned True, s2)"
    "same_but_last_seen (upper ''aa'') (devices ?s1) (devices s2)"
    "disk ?s1 = Some ds1" "disk s2 = Some ds2" "same_but_last_seen (upper ''aa'') ds1 ds2"
    by auto
  then have "update_device plain_dumps_len 3 False ''aa'' caps_status ?s1 = (Returned True, s2)
      \<and> same_but_last_seen ''AA'' [(''AA'', caps_record 2000)] (devices s2)
      \<and> disk s2 = Some ds2
      \<and> same_but_last_seen ''AA'' [(''AA'', caps_record 2000)] ds2"
    by (simp add: upper_aa)
  with run show ?thesis
    by blast
qed

section \<open>The parser loop\<close>

lemma contributions_Nil [simp]: "contributions [] = []"
  by (simp add: contributions_def)

lemma contributions_Cons:
  "contributions (x # xs) =
     (case contribution x of None \<Rightarrow> contributions xs | Some p \<Rightarrow> p # contributions xs)"
  by (simp add: contributions_def List.map_filter_simps split: option.splits)

lemma parse_items_step:
  "parse_items (x # rest) m pd =
     (case contribution x of
        None \<Rightarrow> parse_items rest (case x of JDict item \<Rightarrow> if m = JNull then item_get item ''dn'' else m | _ \<Rightarrow> m) pd
      | Some (t, v) \<Rightarrow>
          (case canon t of
             None \<Rightarrow> Inl TypeError
           | Some c \<Rightarrow> parse_items rest (case x of JDict item \<Rightarrow> if m = JNull then item_get item ''dn'' else m | _ \<Rightarrow> m)
                        (dict_set t v pd)))"
  by (cases x) (auto simp: Let_def setitem_def split: option.splits)

lemma parse_items_hashable:
  "\<forall>(t, v) \<in> set (contributions items). canon t \<noteq> None \<Longrightarrow>
   \<exists>m'. parse_items items m pd = Inr (m', dict_update pd (contributions items))"
proof (induction items arbitrary: m pd)
  case Nil
  show ?case by simp
next
  case (Cons x rest)
  show ?case
  proof (cases "contribution x")
    case None
    with Cons.prems have "\<forall>(t, v) \<in> set (contributions rest). canon t \<noteq> None"
      by (simp add: contributions_Cons)
    from Cons.IH [OF this] None show ?thesis
      by (simp add: parse_items_step contributions_Cons)
  next
    case (Some p)
    obtain t v where p: "p = (t, v)" by (cases p)
    from Cons.prems Some p have rest: "\<forall>(t, v) \<in> set (contributions rest). canon t \<noteq> None"
      and t: "canon t \<noteq> None"
      by (simp_all add: contributions_Cons)
    from Cons.IH [OF rest] Some p t show ?thesis
      by (auto simp: parse_items_step contributions_Cons)
  qed
qed

lemma parse_items_unhashable:
  "\<exists>(t, v) \<in> set (contributions items). canon t = None \<Longrightarrow>
   parse_items items m pd = Inl TypeError"
proof (induction items arbitrary: m pd)
  case Nil
  then show ?case by simp
next
  case (Cons x rest)
  show ?case
  proof (cases "contribution x")
    case None
    with Cons.prems have "\<exists>(t, v) \<in> set (contributions rest). canon t = None"
      by (simp add: contributions_Cons)
    from Cons.IH [OF this] None show ?thesis
      by (simp add: parse_items_step)
  next
    case (Some p)
    obtain t v where p: "p = (t, v)" by (cases p)
    show ?thesis
    proof (cases "canon t")
      case None
      with Some p show ?thesis by (simp add: parse_items_step)
    next
      case (Some c)
      with Cons.prems \<open>contribution x = Some p\<close> p
      have "\<exists>(t, v) \<in> set (contributions rest). canon t = None"
        by (auto simp: contributions_Cons)
      from Cons.IH [OF this] Some \<open>contribution x = Some p\<close> p show ?thesis
        by (simp add: parse_items_step)
    qed
  qed
qed


lemma parse_status_message_list:
  assumes "loads payload = Inr (JList items)" and "items \<noteq> []"
  shows "parse_status_message loads clock payload =
     (case parse_items items JNull [] of
        Inl e \<Rightarrow> (if caught e then Inr None else Inl e)
      | Inr (mac_v, parsed_data) \<Rightarrow>
          Inr (Some \<lparr>status_mac = mac_v, status_attributes = Some parsed_data,
                     status_timestamp = py_int (clock * 1000)\<rparr>))"
  using assms
  by (simp add: parse_status_message_def parse_body_def caught_def split: sum.splits prod.splits)



section \<open>Sample payloads\<close>

lemma sample_loads_sample: "sample_loads sample_payload = Inr (JList sample_items)"
  by (simp add: sample_loads_def)

lemma sample_loads_short: "sample_loads short_payload = Inr (JList short_items)"
  by (simp add: sample_loads_def sample_payload_def short_payload_def)


lemma contributions_sample: "contributions sample_items = sample_attributes"
  by (simp add: contributions_Cons sample_items_def sample_record_def item_get_def
      sample_attributes_def)

lemma contributions_short: "contributions short_items = [(JStr ''brightness'', JInt 25)]"
  by (simp add: contributions_Cons short_items_def item_get_def)

lemma parse_short:
  "parse_status_message sample_loads 2 short_payload =
     Inr (Some \<lparr>status_mac = JStr ''B0:CE:18:C3:3A:A2'',
                status_attributes = Some [(JStr ''brightness'', JInt 25)],
                status_timestamp = 2000\<rparr>)"
proof -
  have ne: "short_items \<noteq> []"
    by (simp add: short_items_def)
  have loop: "parse_items short_items JNull [] =
      Inr (JStr ''B0:CE:18:C3:3A:A2'', [(JStr ''brightness'', JInt 25)])"
    by (simp add: short_items_def item_get_def setitem_def)
  show ?thesis
    unfolding parse_status_message_list [of sample_loads short_payload short_items, OF sample_loads_short ne] loop
    by simp
qed

section \<open>The parser's error boundary\<close>







section \<open>The attributes the parser returns\<close>

text \<open>
  C6, as the claim has it: every record with a non-empty \<^verbatim>\<open>type\<close> and a value gives an
  entry from the type to the stringified value. The payload with the one record of type
  \<^verbatim>\<open>brightness\<close> and value 25 (a number) parses to the entry from \<^verbatim>\<open>brightness\<close> to the
  number 25: the value is stored as decoded, it is not the string \<^verbatim>\<open>"25"\<close>.
\<close>

theorem parser_stringifies_counterexample:
  "sample_loads short_payload = Inr (JList short_items)
   \<and> contributions short_items = [(JStr ''brightness'', JInt 25)]
   \<and> parse_status_message sample_loads 2 short_payload =
       Inr (Some \<lparr>status_mac = JStr ''B0:CE:18:C3:3A:A2'',
                  status_attributes = Some [(JStr ''brightness'', JInt 25)],
                  status_timestamp = 2000\<rparr>)
   \<and> dict_get [(JStr ''brightness'', JInt 25)] (JStr ''brightness'') \<noteq> Some (JStr ''25'')"
  by (simp add: sample_loads_short contributions_short parse_short)

text \<open>
  C6, amended. For a payload that decodes to a non-empty list: a record contributes when
  it is a key-value object whose \<^verbatim>\<open>type\<close> is true as a condition and whose \<^verbatim>\<open>value\<close> is
  not \<^verbatim>\<open>None\<close>; other records are passed over. If the type of every contributing record
  is hashable, the parse succeeds, its attribute dictionary has one entry for each key,
  and a key is mapped to the value, as decoded, of the last contributing record with that
  type. If some contributing record has a list or an object as its type, the parse
  returns \<^verbatim>\<open>None\<close> for the whole payload.
\<close>

theorem parser_attributes:
  assumes "loads payload = Inr (JList items)" and "items \<noteq> []"
  shows "if \<forall>(t, v) \<in> set (contributions items). canon t \<noteq> None
         then \<exists>r attrs. parse_status_message loads clock payload = Inr (Some r)
                \<and> status_attributes r = Some attrs
                \<and> distinct (map (canon \<circ> fst) attrs)
                \<and> (\<forall>k. dict_get attrs k = last_value (contributions items) k)
         else parse_status_message loads clock payload = Inr None"
proof (cases "\<forall>(t, v) \<in> set (contributions items). canon t \<noteq> None")
  case True
  from parse_items_hashable [OF True, of JNull "[]"]
  obtain m' where loop: "parse_items items JNull [] = Inr (m', dict_update [] (contributions items))"
    by blast
  have d: "distinct (map (canon \<circ> fst) (dict_update [] (contributions items)))"
    by (rule distinct_dict_update) simp
  have g: "dict_get (dict_update [] (contributions items)) k = last_value (contributions items) k" for k
    by (simp add: dict_get_update last_value_def split: option.splits)
  from True d g show ?thesis
    unfolding parse_status_message_list [of loads payload items, OF assms] loop
    by simp
next
  case False
  then have "\<exists>(t, v) \<in> set (contributions items). canon t = None"
    by auto
  from parse_items_unhashable [OF this, of JNull "[]"] False show ?thesis
    unfolding parse_status_message_list [of loads payload items, OF assms]
    by (simp add: caught_def)
qed

theorem parser_attributes_witness:
  "sample_loads sample_payload = Inr (JList sample_items) \<and> sample_items \<noteq> []
   \<and> contributions sample_items = sample_attributes
   \<and> (\<exists>r attrs. parse_status_message sample_loads 2 sample_payload = Inr (Some r)
         \<and> status_attributes r = Some attrs
         \<and> dict_get attrs (JStr ''switch'') = Some (JStr ''1'')
         \<and> dict_get attrs (JStr ''colorTemperature'') = Some (JStr ''200'')
         \<and> dict_get attrs (JStr ''dn'') = None)"
proof -
  have ne: "sample_items \<noteq> []"
    by (simp add: sample_items_def)
  have h: "\<forall>(t, v) \<in> set (contributions sample_items). canon t \<noteq> None"
    by (simp add: contributions_sample sample_attributes_def)
  have l: "last_value (contributions sample_items) (JStr ''switch'') = Some (JStr ''1'')"
    "last_value (contributions sample_items) (JStr ''colorTemperature'') = Some (JStr ''200'')"
    "last_value (contributions sample_items) (JStr ''dn'') = None"
    by (simp_all add: contributions_sample sample_attributes_def last_value_def)
  from parser_attributes [of sample_loads sample_payload sample_items 2, OF sample_loads_sample ne] h l
  have "\<exists>r attrs. parse_status_message sample_loads 2 sample_payload = Inr (Some r)
         \<and> status_attributes r = Some attrs
         \<and> dict_get attrs (JStr ''switch'') = Some (JStr ''1'')
         \<and> dict_get attrs (JStr ''colorTemperature'') = Some (JStr ''200'')
         \<and> dict_get attrs (JStr ''dn'') = None"
    by auto
  with sample_loads_sample ne contributions_sample show ?thesis
    by blast
qed

section \<open>Facts about the ingestion listener\<close>

lemma process_status_message:
  assumes "status_topic topic"
    and "parse_status_message loads clock_parse payload = Inr (Some parsed)"
    and "status_attributes parsed = Some attrs"
  shows "process_mqtt_message loads dumps_len clock_parse clock_update write_ok topic payload s =
     (if length attrs < 5 then (False, s)
      else catch_all (update_device dumps_len clock_update write_ok
                        (split_on CHR ''/'' topic ! 1) parsed s))"
  using assms
  by (auto simp: process_mqtt_message_def status_topic_def Let_def)

lemma parse_result_has_attributes:
  assumes "parse_status_message loads clock payload = Inr (Some parsed)"
  shows "\<exists>attrs. status_attributes parsed = Some attrs"
  using assms
  by (auto simp: parse_status_message_def parse_body_def
      split: sum.splits json.splits if_splits prod.splits)





lemma snd_catch_all [simp]: "snd (catch_all r) = snd r"
  by (cases r rule: catch_all.cases) simp_all

section \<open>The end-to-end scenario\<close>

lemma split_sample_topic:
  "split_on CHR ''/'' ''wifielement/B0:CE:18:C3:3A:A2/status'' =
     [''wifielement'', ''B0:CE:18:C3:3A:A2'', ''status'']"
  by simp

lemma split_other_topic:
  "split_on CHR ''/'' ''wifielement/AA/status'' = [''wifielement'', ''AA'', ''status'']"
  by simp

lemma status_topic_samples:
  "status_topic ''wifielement/B0:CE:18:C3:3A:A2/status''" "status_topic ''wifielement/AA/status''"
  unfolding status_topic_def Let_def split_sample_topic split_other_topic
  by simp_all

lemma parse_items_sample:
  "parse_items sample_items JNull [] = Inr (JStr ''B0:CE:18:C3:3A:A2'', sample_attributes)"
  by (simp add: sample_items_def sample_record_def item_get_def setitem_def sample_attributes_def
      Let_def)

lemma parse_sample:
  "parse_status_message sample_loads 1 sample_payload = Inr (Some sample_status)"
proof -
  have ne: "sample_items \<noteq> []"
    by (simp add: sample_items_def)
  show ?thesis
    unfolding parse_status_message_list [of sample_loads sample_payload sample_items,
        OF sample_loads_sample ne] parse_items_sample
    by (simp add: sample_status_def)
qed

lemma merged_sample_empty: "merged_attributes k sample_status empty_store = sample_attributes"
  by (simp add: merged_attributes_def sample_status_def empty_store_def sample_attributes_def)

lemma sample_attributes_facts:
  "length sample_attributes = 5"
  "plain_dumps_len sample_attributes \<le> MAX_DEVICE_SIZE_BYTES"
  "caps_source_ok sample_attributes"
  "dict_get sample_attributes (JStr ''supportAttributes'') =
     Some (JStr ''brightness,switch,colorTemperature'')"
  by (simp_all add: sample_attributes_def plain_dumps_len_def plain_text_len_def
      MAX_DEVICE_SIZE_BYTES_def caps_source_ok_def)

lemma sample_tokens:
  "map strip (split_on CHR '','' ''brightness,switch,colorTemperature'') =
     [''brightness'', ''switch'', ''colorTemperature'']"
proof -
  have "strip ''colorTemperature'' = ''colorTemperature''" "strip ''switch'' = ''switch''"
    unfolding strip_def by (simp_all add: is_space_def Let_def)
  then show ?thesis
    by (simp add: strip_samples)
qed

lemma update_sample_empty:
  assumes "mac0 \<noteq> []"
  shows "update_device plain_dumps_len 2 write_ok mac0 sample_status empty_store =
     (Returned True,
      save_devices write_ok
        \<lparr>devices = [(upper mac0, \<lparr>mac = upper mac0, first_seen = 2000, last_seen = 2000,
           capabilities = [''brightness'', ''switch'', ''colorTemperature''],
           attributes = sample_attributes\<rparr>)],
         disk = None\<rparr>)"
proof -
  have checks: "passes_checks plain_dumps_len mac0 sample_status empty_store"
    using assms
    by (simp add: passes_checks_def merged_sample_empty sample_attributes_facts)
      (simp add: empty_store_def MAX_DEVICES_def)
  have ok: "caps_source_ok (merged_attributes (upper mac0) sample_status empty_store)"
    by (simp add: merged_sample_empty sample_attributes_facts)
  have r: "accepted_record 2 (upper mac0) sample_status empty_store =
      \<lparr>mac = upper mac0, first_seen = 2000, last_seen = 2000,
       capabilities = [''brightness'', ''switch'', ''colorTemperature''],
       attributes = sample_attributes\<rparr>"
    unfolding accepted_record_def Let_def merged_sample_empty sample_attributes_facts py_int_2000
    using sample_tokens by (simp add: empty_store_def)
  show ?thesis
    unfolding update_device_accept [OF checks ok] r
    by (simp add: empty_store_def)
qed

lemma process_sample:
  "process_mqtt_message sample_loads plain_dumps_len 1 2 True
       ''wifielement/B0:CE:18:C3:3A:A2/status'' sample_payload empty_store =
     (True,
      \<lparr>devices = [(''B0:CE:18:C3:3A:A2'',
          \<lparr>mac = ''B0:CE:18:C3:3A:A2'', first_seen = 2000, last_seen = 2000,
           capabilities = [''brightness'', ''switch'', ''colorTemperature''],
           attributes = sample_attributes\<rparr>)],
       disk = Some [(''B0:CE:18:C3:3A:A2'',
          \<lparr>mac = ''B0:CE:18:C3:3A:A2'', first_seen = 2000, last_seen = 2000,
           capabilities = [''brightness'', ''switch'', ''colorTemperature''],
           attributes = sample_attributes\<rparr>)]\<rparr>)"
proof -
  have a: "status_attributes sample_status = Some sample_attributes"
    by (simp add: sample_status_def)
  have u: "upper ''B0:CE:18:C3:3A:A2'' = ''B0:CE:18:C3:3A:A2''"
    by (simp add: upper_def upper_char_def)
  show ?thesis
    unfolding process_status_message [of _ sample_loads 1 sample_payload sample_status
        sample_attributes, OF status_topic_samples(1) parse_sample a] split_sample_topic
    by (simp add: sample_attributes_facts update_sample_empty u save_devices_def)
qed



section \<open>The comprehensiveness threshold\<close>

text \<open>
  C4. For a message on a status topic whose payload parses, the parsed result carries an
  attribute dictionary; when it has fewer than 5 entries \<^verbatim>\<open>process_mqtt_message\<close> answers
  \<^verbatim>\<open>False\<close> and the store (dictionary and snapshot) is as before; when it has 5 or more,
  the answer and the store are those of the call of \<^verbatim>\<open>update_device\<close> on the parsed
  result (an exception of that call giving \<^verbatim>\<open>False\<close>).
\<close>

theorem comprehensiveness_threshold:
  assumes "status_topic topic"
    and "parse_status_message loads clock_parse payload = Inr (Some parsed)"
  shows "\<exists>attrs. status_attributes parsed = Some attrs
     \<and> (length attrs < 5 \<longrightarrow>
          process_mqtt_message loads dumps_len clock_parse clock_update write_ok topic payload s =
            (False, s))
     \<and> (5 \<le> length attrs \<longrightarrow>
          process_mqtt_message loads dumps_len clock_parse clock_update write_ok topic payload s =
            catch_all (update_device dumps_len clock_update write_ok
                         (split_on CHR ''/'' topic ! 1) parsed s))"
proof -
  from parse_result_has_attributes [of loads clock_parse payload parsed, OF assms(2)]
  obtain attrs where a: "status_attributes parsed = Some attrs"
    by blast
  from process_status_message [of topic loads clock_parse payload parsed attrs, OF assms a]
  show ?thesis
    by (auto simp: a)
qed

theorem comprehensiveness_threshold_witness:
  "status_topic ''wifielement/B0:CE:18:C3:3A:A2/status''
   \<and> parse_status_message sample_loads 2 short_payload =
       Inr (Some \<lparr>status_mac = JStr ''B0:CE:18:C3:3A:A2'',
                  status_attributes = Some [(JStr ''brightness'', JInt 25)],
                  status_timestamp = 2000\<rparr>)
   \<and> process_mqtt_message sample_loads plain_dumps_len 2 3 True
        ''wifielement/B0:CE:18:C3:3A:A2/status'' short_payload store_AA = (False, store_AA)
   \<and> parse_status_message sample_loads 1 sample_payload = Inr (Some sample_status)
   \<and> status_attributes sample_status = Some sample_attributes
   \<and> length sample_attributes = 5
   \<and> process_mqtt_message sample_loads plain_dumps_len 1 2 True
        ''wifielement/B0:CE:18:C3:3A:A2/status'' sample_payload empty_store =
       catch_all (update_device plain_dumps_len 2 True ''B0:CE:18:C3:3A:A2'' sample_status empty_store)
   \<and> fst (process_mqtt_message sample_loads plain_dumps_len 1 2 True
        ''wifielement/B0:CE:18:C3:3A:A2/status'' sample_payload empty_store)"
proof -
  have a: "status_attributes sample_status = Some sample_attributes"
    by (simp add: sample_status_def)
  from comprehensiveness_threshold [of "''wifielement/B0:CE:18:C3:3A:A2/status''" sample_loads 2
      short_payload _ plain_dumps_len 3 True store_AA, OF status_topic_samples(1) parse_short]
  have short: "process_mqtt_message sample_loads plain_dumps_len 2 3 True
        ''wifielement/B0:CE:18:C3:3A:A2/status'' short_payload store_AA = (False, store_AA)"
    by simp
  from comprehensiveness_threshold [of "''wifielement/B0:CE:18:C3:3A:A2/status''" sample_loads 1
      sample_payload sample_status plain_dumps_len 2 True empty_store,
      OF status_topic_samples(1) parse_sample]
  have long: "process_mqtt_message sample_loads plain_dumps_len 1 2 True
        ''wifielement/B0:CE:18:C3:3A:A2/status'' sample_payload empty_store =
       catch_all (update_device plain_dumps_len 2 True ''B0:CE:18:C3:3A:A2'' sample_status empty_store)"
    by (simp add: a sample_attributes_facts split_sample_topic)
  have "fst (process_mqtt_message sample_loads plain_dumps_len 1 2 True
        ''wifielement/B0:CE:18:C3:3A:A2/status'' sample_payload empty_store)"
    by (simp add: process_sample)
  with short long a status_topic_samples(1) parse_short parse_sample show ?thesis
    by (simp add: sample_attributes_facts)
qed

section \<open>The identifier the listener hands to the store\<close>




end
